theory Spec2Isabelle
  imports Main "HOL-Library.Sublist" "HOL-Library.AList"
begin

section \<open>Python string operations used by \<open>scripts/process_data.py\<close>\<close>

text \<open>
  File-derived names are modelled as ASCII strings: \<open>str.lower\<close> and \<open>str.title\<close> act on
  the letters A-Z and a-z and leave every other character unchanged, and \<open>\d\<close> is one of
  the ten ASCII digits.
\<close>

definition upper_letters :: string where
  "upper_letters = ''ABCDEFGHIJKLMNOPQRSTUVWXYZ''"

definition lower_letters :: string where
  "lower_letters = ''abcdefghijklmnopqrstuvwxyz''"

definition lower_char :: "char \<Rightarrow> char" where
  "lower_char c = (case map_of (zip upper_letters lower_letters) c of Some d \<Rightarrow> d | None \<Rightarrow> c)"

definition upper_char :: "char \<Rightarrow> char" where
  "upper_char c = (case map_of (zip lower_letters upper_letters) c of Some d \<Rightarrow> d | None \<Rightarrow> c)"

definition is_cased :: "char \<Rightarrow> bool" where
  "is_cased c = (c \<in> set upper_letters \<or> c \<in> set lower_letters)"

definition is_digit :: "char \<Rightarrow> bool" where
  "is_digit c = (c \<in> set ''0123456789'')"

text \<open>\<open>s.lower()\<close>\<close>

definition str_lower :: "string \<Rightarrow> string" where
  "str_lower s = map lower_char s"

text \<open>
  \<open>s.title()\<close>: a cased character is upper-cased when the character before it is not
  cased (or it is the first one) and lower-cased otherwise.
\<close>

fun title_from :: "bool \<Rightarrow> string \<Rightarrow> string" where
  "title_from prev [] = []"
| "title_from prev (c # cs) =
     (if is_cased c then (if prev then lower_char c else upper_char c) # title_from True cs
      else c # title_from False cs)"

definition str_title :: "string \<Rightarrow> string" where
  "str_title s = title_from False s"

text \<open>\<open>needle in hay\<close> on strings: the substring test.\<close>

fun str_contains :: "string \<Rightarrow> string \<Rightarrow> bool" where
  "str_contains needle [] = (needle = [])"
| "str_contains needle (c # cs) = (prefix needle (c # cs) \<or> str_contains needle cs)"

text \<open>
  \<open>s.replace(old, new)\<close>: every non-overlapping occurrence of \<open>old\<close>, left to right.
  The source only calls it with a non-empty \<open>old\<close>; for the empty one Python puts
  \<open>new\<close> around every character.
\<close>

fun str_replace :: "string \<Rightarrow> string \<Rightarrow> string \<Rightarrow> string" where
  "str_replace [] new s = new @ concat (map (\<lambda>c. c # new) s)"
| "str_replace (a # old) new [] = []"
| "str_replace (a # old) new (c # cs) =
     (if prefix (a # old) (c # cs) then new @ str_replace (a # old) new (drop (length old) cs)
      else c # str_replace (a # old) new cs)"

text \<open>\<open>s.split(sep)\<close> for a one-character separator; the result is never empty.\<close>

fun str_split :: "char \<Rightarrow> string \<Rightarrow> string list" where
  "str_split sep [] = [[]]"
| "str_split sep (c # cs) =
     (if c = sep then [] # str_split sep cs
      else (case str_split sep cs of [] \<Rightarrow> [[c]] | p # ps \<Rightarrow> (c # p) # ps))"

text \<open>\<open>sep.join(parts)\<close>\<close>

fun str_join :: "string \<Rightarrow> string list \<Rightarrow> string" where
  "str_join sep [] = []"
| "str_join sep [p] = p"
| "str_join sep (p # q # ps) = p @ sep @ str_join sep (q # ps)"


section \<open>Parameter extraction: \<open>extract_params\<close>\<close>

text \<open>
  \<open>re.search(r'(\d+(\.\d+)?)B', name, re.IGNORECASE)\<close> is modelled by a backtracking
  matcher, as Python's \<open>re\<close> is one: a pattern maps the text at the current position to
  the list of its possible matches (the consumed text and the rest), in the order in
  which the engine tries them. A greedy repetition lists the longer matches first, an
  optional group lists the empty match last.
\<close>

type_synonym matcher = "string \<Rightarrow> (string \<times> string) list"

text \<open>\<open>\d+\<close>\<close>

fun m_digits :: matcher where
  "m_digits [] = []"
| "m_digits (c # cs) =
     (if is_digit c then map (\<lambda>(u, r). (c # u, r)) (m_digits cs) @ [([c], cs)] else [])"

text \<open>One character satisfying a test: \<open>\.\<close> and, under IGNORECASE, \<open>B\<close>.\<close>

definition m_char :: "(char \<Rightarrow> bool) \<Rightarrow> matcher" where
  "m_char P s = (case s of [] \<Rightarrow> [] | c # cs \<Rightarrow> if P c then [([c], cs)] else [])"

definition m_seq :: "matcher \<Rightarrow> matcher \<Rightarrow> matcher" where
  "m_seq a b s = concat (map (\<lambda>(u, r). map (\<lambda>(v, r'). (u @ v, r')) (b r)) (a s))"

definition m_opt :: "matcher \<Rightarrow> matcher" where
  "m_opt a s = a s @ [([], s)]"

definition is_dot :: "char \<Rightarrow> bool" where
  "is_dot c = (c = CHR ''.'')"

definition is_B :: "char \<Rightarrow> bool" where
  "is_B c = (c = CHR ''B'' \<or> c = CHR ''b'')"

text \<open>Group 1 of the pattern: \<open>\d+(\.\d+)?\<close>\<close>

definition m_group1 :: matcher where
  "m_group1 = m_seq m_digits (m_opt (m_seq (m_char is_dot) m_digits))"

text \<open>
  A match of the whole pattern starting at the head of the text: the first way of
  matching group 1 after which a \<open>B\<close> follows. The result is \<open>match.group(1)\<close>.
\<close>

definition match_here :: "string \<Rightarrow> string option" where
  "match_here s =
     (case filter (\<lambda>(g, r). m_char is_B r \<noteq> []) (m_group1 s) of
        [] \<Rightarrow> None
      | (g, r) # _ \<Rightarrow> Some g)"

text \<open>\<open>re.search\<close>: the match at the leftmost position that has one.\<close>

fun re_search :: "string \<Rightarrow> string option" where
  "re_search [] = match_here []"
| "re_search (c # cs) =
     (case match_here (c # cs) of Some g \<Rightarrow> Some g | None \<Rightarrow> re_search cs)"

definition extract_params :: "string \<Rightarrow> string" where
  "extract_params name =
     (case re_search name of Some g \<Rightarrow> g @ ''B'' | None \<Rightarrow> ''Unknown'')"

section \<open>Identity resolution in \<open>collect_signatures\<close>\<close>

text \<open>
  Lines 67-96: the first guess of the organization and of the display name
  (the locals \<open>org\<close> and \<open>name\<close>) from \<open>model_id\<close>.
\<close>

definition guess_org_name :: "string \<Rightarrow> string \<times> string" where
  "guess_org_name model_id =
     (let clean_id = str_lower model_id in
      if str_contains ''_'' model_id then
        (let parts = str_split (CHR ''_'') model_id
         in (hd parts, str_join ''_'' (tl parts)))
      else if str_contains ''meta-llama'' clean_id then
        (''Meta Llama'',
         str_replace ''meta-llama-'' [] (str_replace ''fine-tuned-'' [] model_id))
      else if str_contains ''qwen'' clean_id then (''Qwen'', model_id)
      else if str_contains ''mistral'' clean_id then (''Mistral'', model_id)
      else if str_contains ''01-ai'' clean_id then (''01-ai'', model_id)
      else if str_contains ''google'' clean_id then (''Google'', model_id)
      else if str_contains ''microsoft'' clean_id then (''Microsoft'', model_id)
      else (''Others'', model_id))"

text \<open>Lines 98-101: the fallback to the text before the first hyphen.\<close>

definition fallback_org :: "string \<Rightarrow> string \<Rightarrow> string" where
  "fallback_org model_id org =
     (if org = ''Unknown'' \<or> org = ''Others'' then
        (if str_contains ''-'' model_id then hd (str_split (CHR ''-'') model_id) else org)
      else org)"

text \<open>Line 104: \<open>org.replace('-', ' ').title()\<close>\<close>

definition clean_org :: "string \<Rightarrow> string" where
  "clean_org org = str_title (str_replace ''-'' '' '' org)"

text \<open>Lines 107-109: the three special fixes, each tested on the current value.\<close>

definition special_fixes :: "string \<Rightarrow> string" where
  "special_fixes org =
     (let org1 = (if str_contains ''Meta Llama'' org \<or> str_contains ''Llama'' org
                  then ''Meta Llama'' else org);
          org2 = (if str_contains ''01 Ai'' org1 then ''01-ai'' else org1)
      in if str_contains ''Qwen'' org2 then ''Qwen'' else org2)"

text \<open>The final values of \<open>org\<close> and \<open>name\<close> at line 111.\<close>

definition resolve_org :: "string \<Rightarrow> string" where
  "resolve_org model_id =
     special_fixes (clean_org (fallback_org model_id (fst (guess_org_name model_id))))"

definition resolve_name :: "string \<Rightarrow> string" where
  "resolve_name model_id = snd (guess_org_name model_id)"

text \<open>Lines 114-123: the family, from the lower-cased full id.\<close>

definition family_of :: "string \<Rightarrow> string" where
  "family_of full_id_lower =
     (if str_contains ''llama'' full_id_lower then ''Llama''
      else if str_contains ''qwen'' full_id_lower then ''Qwen''
      else if str_contains ''mistral'' full_id_lower then ''Mistral''
      else if str_contains ''gemma'' full_id_lower then ''Gemma''
      else if str_contains ''phi'' full_id_lower then ''Phi''
      else if str_contains ''yi'' full_id_lower then ''Yi''
      else if str_contains ''falcon'' full_id_lower then ''Falcon''
      else if str_contains ''deepseek'' full_id_lower then ''DeepSeek''
      else ''Unknown'')"

text \<open>The record dictionary of lines 125-133; \<open>'v\<close> is the type of a signature entry.\<close>

record 'v model_record =
  rec_id :: string
  rec_name :: string
  organization :: string
  family :: string
  signature :: "'v list"
  parameters :: string
  isInstruct :: bool

definition make_record :: "string \<Rightarrow> 'v list \<Rightarrow> 'v model_record" where
  "make_record model_id sig =
     (let org = resolve_org model_id;
          name = resolve_name model_id;
          full_id = org @ ''/'' @ name;
          full_id_lower = str_lower full_id
      in \<lparr> rec_id = full_id,
           rec_name = model_id,
           organization = org,
           family = family_of full_id_lower,
           signature = sig,
           parameters = extract_params model_id,
           isInstruct = (str_contains ''instruct'' full_id_lower
                         \<or> str_contains ''chat'' full_id_lower) \<rparr>)"

section \<open>Scanning and deduplication in \<open>collect_signatures\<close>\<close>

text \<open>
  A path is the string \<open>str(dna_path)\<close>, with \<open>/\<close> between its components.
  \<open>path_name\<close> is \<open>dna_path.name\<close> and \<open>path_stem\<close> is \<open>dna_path.stem\<close>: the name
  without its last suffix, when the last dot is neither the first nor the last character.
\<close>

definition path_name :: "string \<Rightarrow> string" where
  "path_name p = rev (takeWhile (\<lambda>c. c \<noteq> CHR ''/'') (rev p))"

definition path_stem :: "string \<Rightarrow> string" where
  "path_stem p =
     (let name = path_name p;
          ext = rev (takeWhile (\<lambda>c. c \<noteq> CHR ''.'') (rev name))
      in if CHR ''.'' \<in> set name \<and> ext \<noteq> [] \<and> length ext + 1 < length name
         then take (length name - length ext - 1) name
         else name)"

text \<open>
  What reading a file gives. \<open>LoadError\<close>: \<open>open\<close>, \<open>json.load\<close> or \<open>data.get\<close> raised,
  which the \<open>except\<close> clause turns into a skipped file. Otherwise the value of
  \<open>data.get('signature')\<close>: absent, something that is not a list, or a list.
\<close>

datatype 'v sig_field = Missing | NotAList | SigList "'v list"

datatype 'v load_result = LoadError | Document "'v sig_field"

type_synonym 'v dna_file = "string \<times> 'v load_result"

text \<open>
  \<open>best_signature\<close>: a Python dict from \<open>model_id\<close> to \<open>(score, record)\<close>, kept as an
  association list in insertion order; assigning to a key that is present replaces
  its value in place.
\<close>

type_synonym 'v best_table = "(string \<times> nat \<times> 'v model_record) list"

text \<open>
  Lines 48-133: the key, the score and the record computed for one file, or \<open>None\<close>
  when the loop body leaves by \<open>continue\<close> before the deduplication step.
\<close>

definition candidate :: "'v dna_file \<Rightarrow> (string \<times> nat \<times> 'v model_record) option" where
  "candidate f =
     (case f of (dna_path, content) \<Rightarrow>
        if suffix ''_DRYRUN.json'' (path_name dna_path) then None
        else (case content of
                LoadError \<Rightarrow> None
              | Document Missing \<Rightarrow> None
              | Document NotAList \<Rightarrow> None
              | Document (SigList sig) \<Rightarrow>
                  if sig = [] then None
                  else
                    (let is_embed = (if str_contains ''embed'' (str_lower dna_path)
                                     then 1 else 0);
                         model_id = str_replace ''_dna'' [] (path_stem dna_path)
                     in Some (model_id, is_embed, make_record model_id sig))))"

text \<open>Lines 135-138: the deduplication step.\<close>

definition admit ::
  "'v best_table \<Rightarrow> string \<Rightarrow> nat \<Rightarrow> 'v model_record \<Rightarrow> 'v best_table" where
  "admit best_signature model_id is_embed record =
     (case map_of best_signature model_id of
        None \<Rightarrow> AList.update model_id (is_embed, record) best_signature
      | Some (score, stored) \<Rightarrow>
          if is_embed > score then AList.update model_id (is_embed, record) best_signature
          else best_signature)"

definition process_file :: "'v best_table \<Rightarrow> 'v dna_file \<Rightarrow> 'v best_table" where
  "process_file best_signature f =
     (case candidate f of
        None \<Rightarrow> best_signature
      | Some (model_id, is_embed, record) \<Rightarrow> admit best_signature model_id is_embed record)"

text \<open>
  The files of the tree in the order in which \<open>rglob\<close> yields them; only names that
  match \<open>*_dna.json\<close> are visited.
\<close>

definition collect_signatures :: "'v dna_file list \<Rightarrow> 'v model_record list" where
  "collect_signatures files =
     map (\<lambda>item. snd (snd item))
       (foldl process_file []
          (filter (\<lambda>f. suffix ''_dna.json'' (path_name (fst f))) files))"

section \<open>The driver \<open>main\<close>\<close>

text \<open>
  \<open>np.array\<close> and \<open>TSNE(...).fit_transform\<close> are library code outside the repository:
  together they are the parameter \<open>stage\<close>, which receives the list of signatures and the
  perplexity and either raises (\<open>Inl\<close>) or returns one coordinate pair per row.
  The dataset directory is \<open>None\<close> when it does not exist.
\<close>

datatype 'e failure = SysExit nat | Raised 'e | IndexError

record ('v, 'c) placed_record = "'v model_record" +
  coord_x :: 'c
  coord_y :: 'c

record ('v, 'c) database =
  meta_count :: nat
  meta_dataset :: string
  meta_generated :: bool
  models :: "('v, 'c) placed_record list"

definition place :: "'v model_record \<Rightarrow> 'c \<times> 'c \<Rightarrow> ('v, 'c) placed_record" where
  "place r xy = model_record.extend r \<lparr> coord_x = fst xy, coord_y = snd xy \<rparr>"

definition main_run ::
  "('v list list \<Rightarrow> nat \<Rightarrow> 'e + ('c \<times> 'c) list) \<Rightarrow> string \<Rightarrow> 'v dna_file list option
     \<Rightarrow> 'e failure + ('v, 'c) database" where
  "main_run stage dataset_name dna_out_dir =
     (case dna_out_dir of
        None \<Rightarrow> Inl (SysExit 1)
      | Some files \<Rightarrow>
          (let records = collect_signatures files in
           if length records < 2 then Inl (SysExit 1)
           else
             (case stage (map signature records) (min 30 (length records - 1)) of
                Inl e \<Rightarrow> Inl (Raised e)
              | Inr embeddings \<Rightarrow>
                  if length embeddings < length records then Inl IndexError
                  else Inr \<lparr> meta_count = length records,
                             meta_dataset = dataset_name,
                             meta_generated = True,
                             models = map2 place records embeddings \<rparr>)))"


section \<open>Vocabulary of the statements about \<open>extract_params\<close>\<close>

text \<open>A non-empty run of digits.\<close>

definition digits :: "string \<Rightarrow> bool" where
  "digits d = (d \<noteq> [] \<and> list_all is_digit d)"

text \<open>
  A numeric token, decimal allowed: digits, or digits, a dot and digits.
\<close>

definition numeric_token :: "string \<Rightarrow> bool" where
  "numeric_token t =
     (let d = takeWhile is_digit t in
      digits d \<and>
      (case dropWhile is_digit t of [] \<Rightarrow> True | c # f \<Rightarrow> c = CHR ''.'' \<and> digits f))"

text \<open>Somewhere in the text a digit is immediately followed by \<open>B\<close> or \<open>b\<close>.\<close>

fun digit_then_B :: "string \<Rightarrow> bool" where
  "digit_then_B (c # d # r) = ((is_digit c \<and> is_B d) \<or> digit_then_B (d # r))"
| "digit_then_B r = False"

text \<open>
  After the prefix \<open>pre\<close> of \<open>name\<close> stands the numeric token \<open>tok\<close>, immediately followed
  by \<open>B\<close> or \<open>b\<close>.
\<close>

definition token_at :: "string \<Rightarrow> string \<Rightarrow> string \<Rightarrow> bool" where
  "token_at name pre tok \<longleftrightarrow>
     numeric_token tok \<and> (\<exists>b post. is_B b \<and> name = pre @ tok @ b # post)"

text \<open>
  No numeric token followed by \<open>B\<close> starts before the end of \<open>pre\<close>, and the one that
  starts there is \<open>g\<close>.
\<close>

definition leftmost :: "string \<Rightarrow> string \<Rightarrow> string \<Rightarrow> bool" where
  "leftmost s pre g \<longleftrightarrow>
     (\<forall>pre' tok'. token_at s pre' tok' \<longrightarrow>
        length pre \<le> length pre' \<and> (length pre' = length pre \<longrightarrow> tok' = g))"

section \<open>Vocabulary of the statements about identity resolution\<close>

text \<open>One of the organization keywords of lines 81-94 occurs in the lower-cased name.\<close>

definition keyword_match :: "string \<Rightarrow> bool" where
  "keyword_match raw =
     (str_contains ''meta-llama'' (str_lower raw) \<or> str_contains ''qwen'' (str_lower raw) \<or>
      str_contains ''mistral'' (str_lower raw) \<or> str_contains ''01-ai'' (str_lower raw) \<or>
      str_contains ''google'' (str_lower raw) \<or> str_contains ''microsoft'' (str_lower raw))"

section \<open>Vocabulary of the statements about the driver\<close>


section \<open>Example inputs for the driver\<close>




section \<open>Deduplication policy\<close>

lemma map_of_admit_new:
  "map_of best k = None \<Longrightarrow> map_of (admit best k s r) k = Some (s, r)"
  by (simp add: admit_def update_conv')

lemma map_of_admit_old:
  "map_of best k = Some (s0, r0) \<Longrightarrow>
   map_of (admit best k s r) k = (if s0 < s then Some (s, r) else Some (s0, r0))"
  by (simp add: admit_def update_conv')

lemma map_of_admit_other:
  "k' \<noteq> k \<Longrightarrow> map_of (admit best k s r) k' = map_of best k'"
  by (simp add: admit_def update_conv' split: option.splits)

text \<open>
  Claim C6. The first candidate for a key is stored; a later candidate for the same key
  replaces the stored one exactly when its score is strictly greater, so that on equal
  scores the candidate seen first stays.
\<close>

theorem admit_policy:
  "(map_of best k = None \<longrightarrow> map_of (admit best k s r) k = Some (s, r)) \<and>
   (\<forall>s0 r0. map_of best k = Some (s0, r0) \<longrightarrow>
      map_of (admit best k s r) k = (if s0 < s then Some (s, r) else Some (s0, r0)))"
  by (simp add: map_of_admit_new map_of_admit_old)

theorem admit_policy_witness:
  "map_of ([] :: nat best_table) ''m'' = None \<and>
   map_of (admit [] ''m'' 0 (make_record ''m'' [1::nat])) ''m'' = Some (0, make_record ''m'' [1]) \<and>
   map_of [(''m'', (1::nat, make_record ''m'' [1::nat]))] ''m'' = Some (1, make_record ''m'' [1]) \<and>
   map_of (admit [(''m'', (1, make_record ''m'' [1::nat]))] ''m'' 1 (make_record ''m'' [2])) ''m''
     = Some (1, make_record ''m'' [1])"
  using admit_policy [of "[]" "''m''" 0 "make_record ''m'' [1::nat]"]
    admit_policy [of "[(''m'', (1, make_record ''m'' [1::nat]))]" "''m''" 1 "make_record ''m'' [2]"]
  by simp

lemma candidate_score:
  "candidate (p, c) = Some (k, s, r) \<Longrightarrow>
   s = (if str_contains ''embed'' (str_lower p) then 1 else 0)"
  by (auto simp: candidate_def Let_def split: if_splits load_result.splits sig_field.splits)

text \<open>
  Claim C1. Two files give candidates for the same key \<open>k\<close>, which the table does not
  hold yet; the path of the first contains \<open>embed\<close> (case-insensitively), the path of the
  second does not. Whichever of the two is processed first, the table then holds, for
  \<open>k\<close>, the record of the file from the \<open>embed\<close> path.
\<close>

theorem embed_candidate_retained:
  assumes c1: "candidate (p1, c1) = Some (k, s1, r1)"
    and c2: "candidate (p2, c2) = Some (k, s2, r2)"
    and e1: "str_contains ''embed'' (str_lower p1)"
    and e2: "\<not> str_contains ''embed'' (str_lower p2)"
    and fresh: "map_of best k = None"
  shows "map_of (process_file (process_file best (p1, c1)) (p2, c2)) k = Some (1, r1) \<and>
         map_of (process_file (process_file best (p2, c2)) (p1, c1)) k = Some (1, r1)"
proof -
  from candidate_score [OF c1] e1 have s1: "s1 = 1" by simp
  from candidate_score [OF c2] e2 have s2: "s2 = 0" by simp
  have a: "map_of (process_file best (p1, c1)) k = Some (1, r1)"
    using c1 s1 fresh by (simp add: process_file_def map_of_admit_new)
  have b: "map_of (process_file best (p2, c2)) k = Some (0, r2)"
    using c2 s2 fresh by (simp add: process_file_def map_of_admit_new)
  have "map_of (process_file (process_file best (p1, c1)) (p2, c2)) k = Some (1, r1)"
    using c2 s2 map_of_admit_old [OF a, of 0 r2] by (simp add: process_file_def)
  moreover have "map_of (process_file (process_file best (p2, c2)) (p1, c1)) k = Some (1, r1)"
    using c1 s1 map_of_admit_old [OF b, of 1 r1] by (simp add: process_file_def)
  ultimately show ?thesis by simp
qed

lemma foo_embed_candidate:
  "candidate (''out/embed/foo_dna.json'', Document (SigList [1::nat]))
     = Some (''foo'', 1, make_record ''foo'' [1])"
  by code_simp

lemma foo_base_candidate:
  "candidate (''out/base/foo_dna.json'', Document (SigList [2::nat]))
     = Some (''foo'', 0, make_record ''foo'' [2])"
  by code_simp

lemma foo_embed_path: "str_contains ''embed'' (str_lower ''out/embed/foo_dna.json'')"
  by code_simp

lemma foo_base_path: "\<not> str_contains ''embed'' (str_lower ''out/base/foo_dna.json'')"
  by code_simp

theorem embed_candidate_retained_witness:
  "map_of (process_file (process_file [] (''out/embed/foo_dna.json'', Document (SigList [1::nat])))
             (''out/base/foo_dna.json'', Document (SigList [2]))) ''foo''
     = Some (1, make_record ''foo'' [1]) \<and>
   map_of (process_file (process_file [] (''out/base/foo_dna.json'', Document (SigList [2::nat])))
             (''out/embed/foo_dna.json'', Document (SigList [1]))) ''foo''
     = Some (1, make_record ''foo'' [1])"
  by (rule embed_candidate_retained
        [OF foo_embed_candidate foo_base_candidate foo_embed_path foo_base_path]) simp

section \<open>The driver: too few models\<close>

text \<open>
  Claim C9. When fewer than two records are retained, \<open>main\<close> leaves by \<open>sys.exit(1)\<close>:
  whatever the embedding stage would do, the run ends in that failure and there is no
  database.
\<close>

theorem too_few_records_abort:
  "length (collect_signatures files) < 2 \<Longrightarrow>
   main_run stage dataset_name (Some files) = Inl (SysExit 1)"
  by (simp add: main_run_def Let_def)

lemma one_file_collected:
  "length (collect_signatures [(''out/base/foo_dna.json'', Document (SigList [2::nat]))]) = 1"
  by code_simp

lemma no_file_collected: "length (collect_signatures ([] :: nat dna_file list)) = 0"
  by code_simp

theorem too_few_records_abort_witness:
  "length (collect_signatures [(''out/base/foo_dna.json'', Document (SigList [2::nat]))]) < 2 \<and>
   main_run (\<lambda>m p. Inr (map (\<lambda>row. (0::int, 0::int)) m) :: unit + (int \<times> int) list) ''squad''
       (Some [(''out/base/foo_dna.json'', Document (SigList [2::nat]))]) = Inl (SysExit 1) \<and>
   length (collect_signatures ([] :: nat dna_file list)) < 2 \<and>
   main_run (\<lambda>m p. Inr (map (\<lambda>row. (0::int, 0::int)) m) :: unit + (int \<times> int) list) ''squad''
       (Some ([] :: nat dna_file list)) = Inl (SysExit 1)"
  using too_few_records_abort [of "[(''out/base/foo_dna.json'', Document (SigList [2::nat]))]"
      "\<lambda>m p. Inr (map (\<lambda>row. (0::int, 0::int)) m) :: unit + (int \<times> int) list" "''squad''"]
    too_few_records_abort [of "[] :: nat dna_file list"
      "\<lambda>m p. Inr (map (\<lambda>row. (0::int, 0::int)) m) :: unit + (int \<times> int) list" "''squad''"]
    one_file_collected no_file_collected
  by simp

section \<open>Identity resolution\<close>

lemma llama_example_org:
  "resolve_org ''fine-tuned-meta-llama-meta-llama-3-8b-instruct'' = ''Meta Llama''"
  by code_simp

lemma llama_example_name:
  "resolve_name ''fine-tuned-meta-llama-meta-llama-3-8b-instruct'' = ''3-8b-instruct''"
  by code_simp

lemma llama_example_params:
  "extract_params ''fine-tuned-meta-llama-meta-llama-3-8b-instruct'' = ''8B''"
  by code_simp

lemma llama_example_lower:
  "str_lower ''Meta Llama/3-8b-instruct'' = ''meta llama/3-8b-instruct''"
  by code_simp

lemma llama_example_family: "family_of ''meta llama/3-8b-instruct'' = ''Llama''"
  by code_simp

lemma llama_example_instruct: "str_contains ''instruct'' ''meta llama/3-8b-instruct''"
  by code_simp

text \<open>
  Claim C3. The record built for \<open>fine-tuned-meta-llama-meta-llama-3-8b-instruct\<close> has
  organization \<open>Meta Llama\<close>, family \<open>Llama\<close>, parameters \<open>8B\<close> and is instruction-tuned.
\<close>

theorem resolve_fine_tuned_meta_llama:
  "organization (make_record ''fine-tuned-meta-llama-meta-llama-3-8b-instruct'' sig)
     = ''Meta Llama'' \<and>
   family (make_record ''fine-tuned-meta-llama-meta-llama-3-8b-instruct'' sig) = ''Llama'' \<and>
   parameters (make_record ''fine-tuned-meta-llama-meta-llama-3-8b-instruct'' sig) = ''8B'' \<and>
   isInstruct (make_record ''fine-tuned-meta-llama-meta-llama-3-8b-instruct'' sig)"
  unfolding make_record_def Let_def llama_example_org llama_example_name llama_example_params
  using llama_example_lower llama_example_family llama_example_instruct by simp

text \<open>
  Claim C10. A raw name without underscore that matches one of the keywords \<open>qwen\<close>,
  \<open>mistral\<close>, \<open>01-ai\<close>, \<open>google\<close>, \<open>microsoft\<close> and not \<open>meta-llama\<close> keeps the whole raw
  name as its display name: the id of the record is the organization, a slash and the
  raw name.
\<close>

theorem keyword_display_name_unchanged:
  assumes "\<not> str_contains ''_'' raw"
    and "\<not> str_contains ''meta-llama'' (str_lower raw)"
    and "str_contains ''qwen'' (str_lower raw) \<or> str_contains ''mistral'' (str_lower raw)
         \<or> str_contains ''01-ai'' (str_lower raw) \<or> str_contains ''google'' (str_lower raw)
         \<or> str_contains ''microsoft'' (str_lower raw)"
  shows "resolve_name raw = raw \<and> rec_id (make_record raw sig) = resolve_org raw @ ''/'' @ raw"
  using assms by (simp add: resolve_name_def guess_org_name_def make_record_def Let_def)

lemma qwen_chat_no_underscore: "\<not> str_contains ''_'' ''Qwen2.5-7B-Chat''"
  by code_simp

lemma qwen_chat_no_meta: "\<not> str_contains ''meta-llama'' (str_lower ''Qwen2.5-7B-Chat'')"
  by code_simp

lemma qwen_chat_keyword: "str_contains ''qwen'' (str_lower ''Qwen2.5-7B-Chat'')"
  by code_simp

theorem keyword_display_name_unchanged_witness:
  "resolve_name ''Qwen2.5-7B-Chat'' = ''Qwen2.5-7B-Chat'' \<and>
   rec_id (make_record ''Qwen2.5-7B-Chat'' [1::nat])
     = resolve_org ''Qwen2.5-7B-Chat'' @ ''/'' @ ''Qwen2.5-7B-Chat''"
  using keyword_display_name_unchanged [OF qwen_chat_no_underscore qwen_chat_no_meta, of "[1::nat]"]
    qwen_chat_keyword
  by simp

section \<open>Parameter extraction\<close>

lemma not_digit_dot: "\<not> is_digit (CHR ''.'')"
  by (simp add: is_digit_def)

lemma not_digit_B: "is_B b \<Longrightarrow> \<not> is_digit b"
  by (auto simp: is_digit_def is_B_def)

lemma not_dot_B: "is_B b \<Longrightarrow> b \<noteq> CHR ''.''"
  by (auto simp: is_B_def)

lemma takeWhile_digits:
  "list_all is_digit u \<Longrightarrow> \<not> is_digit c \<Longrightarrow> takeWhile is_digit (u @ c # r) = u"
  by (induction u) auto

lemma dropWhile_digits:
  "list_all is_digit u \<Longrightarrow> \<not> is_digit c \<Longrightarrow> dropWhile is_digit (u @ c # r) = c # r"
  by (induction u) auto

lemma takeWhile_all_digits: "list_all is_digit u \<Longrightarrow> takeWhile is_digit u = u"
  by (induction u) auto

lemma dropWhile_all_digits: "list_all is_digit u \<Longrightarrow> dropWhile is_digit u = []"
  by (induction u) auto

lemma numeric_token_iff:
  "numeric_token t \<longleftrightarrow>
     digits t \<or> (\<exists>d f. t = d @ CHR ''.'' # f \<and> digits d \<and> digits f)"
proof
  assume nt: "numeric_token t"
  let ?d = "takeWhile is_digit t"
  from nt have d: "digits ?d" by (simp add: numeric_token_def Let_def)
  show "digits t \<or> (\<exists>d f. t = d @ CHR ''.'' # f \<and> digits d \<and> digits f)"
  proof (cases "dropWhile is_digit t")
    case Nil
    then have "?d = t" by (metis append_Nil2 takeWhile_dropWhile_id)
    with d show ?thesis by simp
  next
    case (Cons c f)
    with nt have "c = CHR ''.''" "digits f" by (simp_all add: numeric_token_def Let_def)
    moreover have "t = ?d @ c # f" using Cons by (metis takeWhile_dropWhile_id)
    ultimately show ?thesis using d by blast
  qed
next
  assume "digits t \<or> (\<exists>d f. t = d @ CHR ''.'' # f \<and> digits d \<and> digits f)"
  then show "numeric_token t"
  proof
    assume "digits t"
    then show ?thesis
      by (simp add: numeric_token_def digits_def takeWhile_all_digits dropWhile_all_digits)
  next
    assume "\<exists>d f. t = d @ CHR ''.'' # f \<and> digits d \<and> digits f"
    then obtain d f where "t = d @ CHR ''.'' # f" "digits d" "digits f" by blast
    then show ?thesis
      by (simp add: numeric_token_def digits_def takeWhile_digits dropWhile_digits not_digit_dot)
  qed
qed

lemma in_map_cons:
  "(u, r) \<in> set (map (\<lambda>(u, r). (c # u, r)) xs) \<longleftrightarrow> (\<exists>u'. u = c # u' \<and> (u', r) \<in> set xs)"
  by (induction xs) auto

lemma set_m_digits: "(u, r) \<in> set (m_digits s) \<longleftrightarrow> digits u \<and> s = u @ r"
proof (induction s arbitrary: u r)
  case Nil
  then show ?case by (auto simp: digits_def)
next
  case (Cons c cs)
  show ?case
  proof (cases "is_digit c")
    case False
    then show ?thesis by (cases u) (auto simp: digits_def)
  next
    case True
    have "(u, r) \<in> set (m_digits (c # cs)) \<longleftrightarrow>
            (\<exists>u'. u = c # u' \<and> (u', r) \<in> set (m_digits cs)) \<or> (u = [c] \<and> r = cs)"
      using True in_map_cons [of u r c "m_digits cs"] by auto
    also have "\<dots> \<longleftrightarrow> (\<exists>u'. u = c # u' \<and> digits u' \<and> cs = u' @ r) \<or> (u = [c] \<and> r = cs)"
      by (simp add: Cons.IH)
    also have "\<dots> \<longleftrightarrow> digits u \<and> c # cs = u @ r"
      using True by (cases u) (auto simp: digits_def)
    finally show ?thesis .
  qed
qed

lemma set_m_char: "(u, r) \<in> set (m_char P s) \<longleftrightarrow> (\<exists>c. P c \<and> u = [c] \<and> s = c # r)"
  by (auto simp: m_char_def split: list.splits)

lemma m_char_nonempty: "m_char P s \<noteq> [] \<longleftrightarrow> (\<exists>c r. P c \<and> s = c # r)"
  by (auto simp: m_char_def split: list.splits)

lemma set_m_seq:
  "(w, r') \<in> set (m_seq a b s) \<longleftrightarrow>
     (\<exists>u r v. (u, r) \<in> set (a s) \<and> (v, r') \<in> set (b r) \<and> w = u @ v)"
  by (force simp: m_seq_def)

lemma set_m_opt: "set (m_opt a s) = insert ([], s) (set (a s))"
  by (simp add: m_opt_def)

lemma set_m_group1:
  "(g, r) \<in> set (m_group1 s) \<longleftrightarrow> numeric_token g \<and> s = g @ r"
  unfolding m_group1_def numeric_token_iff set_m_seq set_m_opt insert_iff set_m_digits set_m_char
  by (auto simp: is_dot_def)

lemma match_here_Some:
  assumes "match_here s = Some g"
  shows "numeric_token g \<and> (\<exists>b post. is_B b \<and> s = g @ b # post)"
proof -
  from assms obtain r rest where
    f: "filter (\<lambda>(g, r). m_char is_B r \<noteq> []) (m_group1 s) = (g, r) # rest"
    by (auto simp: match_here_def split: list.splits)
  then have "(g, r) \<in> set (filter (\<lambda>(g, r). m_char is_B r \<noteq> []) (m_group1 s))"
    by simp
  then have "(g, r) \<in> set (m_group1 s)" and "m_char is_B r \<noteq> []"
    by auto
  then show ?thesis
    by (auto simp: set_m_group1 m_char_nonempty)
qed

lemma match_here_None:
  assumes "match_here s = None" and "numeric_token g" and "is_B b"
  shows "s \<noteq> g @ b # post"
proof
  assume s: "s = g @ b # post"
  with assms(2) have "(g, b # post) \<in> set (m_group1 s)"
    by (simp add: set_m_group1)
  moreover have "m_char is_B (b # post) \<noteq> []"
    using assms(3) by (simp add: m_char_def)
  ultimately have "(g, b # post) \<in> set (filter (\<lambda>(g, r). m_char is_B r \<noteq> []) (m_group1 s))"
    by simp
  then have "filter (\<lambda>(g, r). m_char is_B r \<noteq> []) (m_group1 s) \<noteq> []"
    by (metis empty_iff empty_set)
  with assms(1) show False
    by (auto simp: match_here_def split: list.splits)
qed

lemma split_at_nondigit:
  assumes "list_all is_digit u" "\<not> is_digit c" "list_all is_digit u'" "\<not> is_digit c'"
    and "u @ c # r = u' @ c' # r'"
  shows "u = u' \<and> c = c' \<and> r = r'"
proof -
  have "u = takeWhile is_digit (u @ c # r)" using assms(1,2) by (simp add: takeWhile_digits)
  also have "\<dots> = takeWhile is_digit (u' @ c' # r')" using assms(5) by simp
  also have "\<dots> = u'" using assms(3,4) by (simp add: takeWhile_digits)
  finally have "u = u'" .
  with assms(5) show ?thesis by simp
qed

lemma token_shape:
  assumes "numeric_token g" and "is_B b"
  shows "\<exists>d c r. g @ b # post = d @ c # r \<and> digits d \<and> \<not> is_digit c \<and>
           (if c = CHR ''.'' then \<exists>f. g = d @ CHR ''.'' # f \<and> digits f \<and> r = f @ b # post
            else g = d)"
proof -
  from assms(1) consider (int) "digits g"
    | (dec) d f where "g = d @ CHR ''.'' # f" "digits d" "digits f"
    by (auto simp: numeric_token_iff)
  then show ?thesis
  proof cases
    case int
    have "g @ b # post = g @ b # post \<and> digits g \<and> \<not> is_digit b \<and>
           (if b = CHR ''.'' then \<exists>f. g = g @ CHR ''.'' # f \<and> digits f \<and> post = f @ b # post
            else g = g)"
      using int not_digit_B [OF assms(2)] not_dot_B [OF assms(2)] by simp
    then show ?thesis by blast
  next
    case dec
    have "g @ b # post = d @ CHR ''.'' # (f @ b # post) \<and> digits d \<and> \<not> is_digit (CHR ''.'') \<and>
           (if CHR ''.'' = CHR ''.'' then
              \<exists>f'. g = d @ CHR ''.'' # f' \<and> digits f' \<and> f @ b # post = f' @ b # post
            else g = d)"
      using dec not_digit_dot by simp
    then show ?thesis by blast
  qed
qed

lemma token_unique:
  assumes g: "numeric_token g" and g': "numeric_token g'"
    and b: "is_B b" and b': "is_B b'"
    and eq: "g @ b # post = g' @ b' # post'"
  shows "g = g'"
proof -
  from token_shape [OF g b, of post] obtain d c r where
    1: "g @ b # post = d @ c # r" "digits d" "\<not> is_digit c"
    and 2: "if c = CHR ''.'' then \<exists>f. g = d @ CHR ''.'' # f \<and> digits f \<and> r = f @ b # post
            else g = d"
    by blast
  from token_shape [OF g' b', of post'] obtain d' c' r' where
    3: "g' @ b' # post' = d' @ c' # r'" "digits d'" "\<not> is_digit c'"
    and 4: "if c' = CHR ''.'' then \<exists>f. g' = d' @ CHR ''.'' # f \<and> digits f \<and> r' = f @ b' # post'
            else g' = d'"
    by blast
  from 1(1) 3(1) eq have "d @ c # r = d' @ c' # r'" by (simp only:)
  with 1(2,3) 3(2,3) have same: "d = d' \<and> c = c' \<and> r = r'"
    by (intro split_at_nondigit) (simp_all add: digits_def)
  show ?thesis
  proof (cases "c = CHR ''.''")
    case False
    with 2 4 same show ?thesis by simp
  next
    case True
    with 2 obtain f where f: "g = d @ CHR ''.'' # f" "digits f" "r = f @ b # post" by auto
    from True same 4 obtain f' where
      f': "g' = d' @ CHR ''.'' # f'" "digits f'" "r' = f' @ b' # post'" by auto
    from f(3) f'(3) same have "f @ b # post = f' @ b' # post'" by (simp only:)
    with f(2) f'(2) not_digit_B [OF b] not_digit_B [OF b'] have "f = f'"
      using split_at_nondigit [of f b f' b' post post'] by (simp add: digits_def)
    with f(1) f'(1) same show ?thesis by simp
  qed
qed

lemma token_at_Cons: "token_at (c # cs) (a # pre) tok \<longleftrightarrow> a = c \<and> token_at cs pre tok"
  by (auto simp: token_at_def)

lemma token_at_here: "match_here s = Some g \<Longrightarrow> token_at s [] g"
  using match_here_Some [of s g] by (simp add: token_at_def)

lemma token_at_not_here: "match_here s = None \<Longrightarrow> \<not> token_at s [] tok"
  using match_here_None [of s tok] by (auto simp: token_at_def)

lemma token_at_unique:
  assumes "token_at s [] t" and "token_at s [] t'"
  shows "t = t'"
proof -
  from assms(1) obtain b post where 1: "numeric_token t" "is_B b" "s = t @ b # post"
    by (auto simp: token_at_def)
  from assms(2) obtain b' post' where 2: "numeric_token t'" "is_B b'" "s = t' @ b' # post'"
    by (auto simp: token_at_def)
  from 1(3) 2(3) have "t @ b # post = t' @ b' # post'" by (simp only:)
  then show ?thesis by (rule token_unique [OF 1(1) 2(1) 1(2) 2(2)])
qed

lemma re_search_None: "re_search s = None \<Longrightarrow> \<not> token_at s pre tok"
proof (induction s arbitrary: pre)
  case Nil
  then show ?case by (simp add: token_at_def)
next
  case (Cons c cs)
  from Cons.prems have m: "match_here (c # cs) = None" and r: "re_search cs = None"
    by (auto split: option.splits)
  show ?case
  proof (cases pre)
    case Nil
    then show ?thesis using token_at_not_here [OF m] by simp
  next
    case (Cons a pre')
    then show ?thesis using Cons.IH [OF r, of pre'] by (simp add: token_at_Cons)
  qed
qed

lemma leftmost_here: "token_at s [] g \<Longrightarrow> leftmost s [] g"
  unfolding leftmost_def
proof (intro allI impI conjI)
  fix pre' tok'
  assume g: "token_at s [] g" and t: "token_at s pre' tok'" and "length pre' = length []"
  then have "pre' = []" by simp
  with g t show "tok' = g" using token_at_unique by blast
qed simp

lemma leftmost_Cons:
  assumes m: "match_here (c # cs) = None" and l: "leftmost cs pre g"
  shows "leftmost (c # cs) (c # pre) g"
  unfolding leftmost_def
proof (intro allI impI)
  fix pre' tok'
  assume t: "token_at (c # cs) pre' tok'"
  show "length (c # pre) \<le> length pre' \<and> (length pre' = length (c # pre) \<longrightarrow> tok' = g)"
  proof (cases pre')
    case Nil
    with t show ?thesis using token_at_not_here [OF m] by simp
  next
    case (Cons a pre'')
    with t have "token_at cs pre'' tok'" by (simp add: token_at_Cons)
    with l have "length pre \<le> length pre'' \<and> (length pre'' = length pre \<longrightarrow> tok' = g)"
      unfolding leftmost_def by blast
    with Cons show ?thesis by simp
  qed
qed

lemma re_search_Some:
  "re_search s = Some g \<Longrightarrow> \<exists>pre. token_at s pre g \<and> leftmost s pre g"
proof (induction s)
  case Nil
  then have "token_at [] [] g" using token_at_here [of "[]" g] by simp
  then show ?case by (simp add: token_at_def)
next
  case (Cons c cs)
  show ?case
  proof (cases "match_here (c # cs)")
    case (Some g0)
    with Cons.prems have "g0 = g" by simp
    with Some have "token_at (c # cs) [] g" by (simp add: token_at_here)
    then show ?thesis using leftmost_here by blast
  next
    case None
    with Cons.prems have "re_search cs = Some g" by simp
    from Cons.IH [OF this] obtain pre where p: "token_at cs pre g" "leftmost cs pre g"
      by blast
    from p(1) have "token_at (c # cs) (c # pre) g" by (simp add: token_at_Cons)
    moreover from p(2) have "leftmost (c # cs) (c # pre) g" by (rule leftmost_Cons [OF None])
    ultimately show ?thesis by blast
  qed
qed

lemma digit_then_B_append:
  "is_digit d \<Longrightarrow> is_B b \<Longrightarrow> digit_then_B (xs @ d # b # post)"
proof (induction xs)
  case Nil
  then show ?case by simp
next
  case (Cons x xs)
  then show ?case by (cases xs) auto
qed

lemma digit_then_B_split:
  "digit_then_B s \<Longrightarrow> \<exists>pre d b post. s = pre @ d # b # post \<and> is_digit d \<and> is_B b"
proof (induction s rule: digit_then_B.induct)
  case (1 c d r)
  show ?case
  proof (cases "is_digit c \<and> is_B d")
    case True
    then show ?thesis by (intro exI [of _ "[]"]) auto
  next
    case False
    with 1 obtain pre d' b post where "d # r = pre @ d' # b # post" "is_digit d'" "is_B b"
      by auto
    then show ?thesis by (intro exI [of _ "c # pre"]) auto
  qed
qed simp_all

lemma numeric_token_last: "numeric_token t \<Longrightarrow> \<exists>t' d. t = t' @ [d] \<and> is_digit d"
proof -
  have dl: "\<exists>t' d. u = t' @ [d] \<and> is_digit d" if "digits u" for u
    using that by (cases u rule: rev_cases) (auto simp: digits_def)
  assume "numeric_token t"
  then consider "digits t" | d f where "t = d @ CHR ''.'' # f" "digits f"
    by (auto simp: numeric_token_iff)
  then show ?thesis
  proof cases
    case 1
    then show ?thesis by (rule dl)
  next
    case 2
    from dl [OF 2(2)] obtain f' x where "f = f' @ [x]" "is_digit x" by blast
    with 2 have "t = (d @ CHR ''.'' # f') @ [x]" by simp
    with \<open>is_digit x\<close> show ?thesis by blast
  qed
qed

lemma digit_then_B_iff: "digit_then_B s \<longleftrightarrow> (\<exists>pre tok. token_at s pre tok)"
proof
  assume "digit_then_B s"
  from digit_then_B_split [OF this] obtain pre d b post where
    "s = pre @ d # b # post" "is_digit d" "is_B b" by blast
  moreover from \<open>is_digit d\<close> have "numeric_token [d]"
    by (simp add: numeric_token_def digits_def)
  ultimately have "token_at s pre [d]" by (auto simp: token_at_def)
  then show "\<exists>pre tok. token_at s pre tok" by blast
next
  assume "\<exists>pre tok. token_at s pre tok"
  then obtain pre tok b post where "numeric_token tok" "is_B b" "s = pre @ tok @ b # post"
    by (auto simp: token_at_def)
  moreover from numeric_token_last [OF \<open>numeric_token tok\<close>] obtain t' d where
    "tok = t' @ [d]" "is_digit d" by blast
  ultimately have "s = (pre @ t') @ d # b # post" by simp
  then show "digit_then_B s"
    using digit_then_B_append [OF \<open>is_digit d\<close> \<open>is_B b\<close>, of "pre @ t'" post] by simp
qed

text \<open>
  Claim C8. \<open>extract_params\<close> returns \<open>Unknown\<close> exactly when no digit of the name is
  immediately followed by \<open>B\<close> or \<open>b\<close>. Otherwise it returns the first numeric token
  (digits, or digits, a dot and digits) that is immediately followed by \<open>B\<close> or \<open>b\<close>,
  with \<open>B\<close> appended: no such token starts further left, and the token is the only one
  at its position. A number that no \<open>B\<close> follows is therefore never returned.
\<close>

theorem extract_params_first_token:
  "(extract_params name = ''Unknown'') = (\<not> digit_then_B name) \<and>
   (digit_then_B name \<longrightarrow>
     (\<exists>pre tok. token_at name pre tok \<and> leftmost name pre tok \<and>
        extract_params name = tok @ ''B''))"
proof (cases "re_search name")
  case None
  then have "\<not> digit_then_B name"
    using re_search_None [OF None] by (simp add: digit_then_B_iff)
  with None show ?thesis by (simp add: extract_params_def)
next
  case (Some g)
  from re_search_Some [OF Some] obtain pre where
    p: "token_at name pre g" and least: "leftmost name pre g"
    by blast
  from p have d: "digit_then_B name" unfolding digit_then_B_iff by blast
  have e: "extract_params name = g @ ''B''" using Some by (simp add: extract_params_def)
  from p have "numeric_token g" by (simp add: token_at_def)
  from numeric_token_last [OF this] obtain t' x where g: "g = t' @ [x]" and x: "is_digit x"
    by blast
  have ne: "g @ ''B'' \<noteq> ''Unknown''"
  proof
    assume "g @ ''B'' = ''Unknown''"
    then have "butlast (g @ ''B'') = butlast ''Unknown''" by (rule arg_cong)
    then have "g = ''Unknow''" by (simp add: butlast_append)
    with g have "last (t' @ [x]) = last ''Unknow''" by (simp only:)
    then have "x = CHR ''w''" by simp
    with x show False by (simp add: is_digit_def)
  qed
  have 1: "(extract_params name = ''Unknown'') = (\<not> digit_then_B name)"
    using e ne d by simp
  have 2: "\<exists>pre tok. token_at name pre tok \<and> leftmost name pre tok \<and>
        extract_params name = tok @ ''B''"
    using p e least by blast
  from 1 2 show ?thesis by (simp only: simp_thms)
qed

lemma llama_8b_has_digit_B: "digit_then_B ''Llama-3-8b''"
  by code_simp

lemma llama_3_no_digit_B: "\<not> digit_then_B ''Llama-3''"
  by code_simp

theorem extract_params_first_token_witness:
  "digit_then_B ''Llama-3-8b'' \<and>
   (\<exists>pre tok. token_at ''Llama-3-8b'' pre tok \<and> leftmost ''Llama-3-8b'' pre tok \<and>
      extract_params ''Llama-3-8b'' = tok @ ''B'') \<and>
   extract_params ''Llama-3'' = ''Unknown''"
  using extract_params_first_token [of "''Llama-3-8b''"] extract_params_first_token [of "''Llama-3''"]
    llama_8b_has_digit_B llama_3_no_digit_B
  by (simp only: simp_thms)

section \<open>Underscore split and organization fixes\<close>

lemma str_contains_single: "str_contains [c] s \<longleftrightarrow> c \<in> set s"
  by (induction s) auto

lemma str_split_nonempty: "str_split c s \<noteq> []"
  by (induction s) (auto split: list.splits)

lemma hd_str_split: "hd (str_split c s) = takeWhile (\<lambda>x. x \<noteq> c) s"
proof (induction s)
  case Nil
  then show ?case by simp
next
  case (Cons x xs)
  then show ?case
    using str_split_nonempty [of c xs] by (cases "str_split c xs") auto
qed

lemma join_tl_str_split_aux:
  "str_join [c] (str_split c s) = s \<and>
   str_join [c] (tl (str_split c s)) = tl (dropWhile (\<lambda>x. x \<noteq> c) s)"
proof (induction s)
  case Nil
  then show ?case by simp
next
  case (Cons x xs)
  obtain p ps where sp: "str_split c xs = p # ps"
    using str_split_nonempty [of c xs] by (cases "str_split c xs") auto
  show ?case
  proof (cases "x = c")
    case True
    with Cons sp show ?thesis by simp
  next
    case False
    with Cons sp show ?thesis by (cases ps) auto
  qed
qed

lemma join_tl_str_split:
  "str_join [c] (tl (str_split c s)) = tl (dropWhile (\<lambda>x. x \<noteq> c) s)"
  using join_tl_str_split_aux by blast

text \<open>
  Claim C2, as amended. For a raw name that contains an underscore, the display name is
  the text after the first underscore, and the organization is computed from the text
  before the first underscore only: that text (or, when it is literally \<open>Unknown\<close> or
  \<open>Others\<close> and the raw name has a hyphen, the text before the first hyphen) with hyphens
  replaced by spaces, title-cased, and then passed through the three special fixes.
\<close>

theorem underscore_split_normalised:
  assumes "str_contains ''_'' raw"
  shows "resolve_org raw
           = special_fixes (clean_org (fallback_org raw (takeWhile (\<lambda>c. c \<noteq> CHR ''_'') raw))) \<and>
         resolve_name raw = tl (dropWhile (\<lambda>c. c \<noteq> CHR ''_'') raw)"
  using assms
  by (simp add: resolve_org_def resolve_name_def guess_org_name_def Let_def hd_str_split
      join_tl_str_split)

lemma meta_llama_underscore: "str_contains ''_'' ''meta-llama_Llama-3-8B''"
  by code_simp

lemma meta_llama_org: "resolve_org ''meta-llama_Llama-3-8B'' = ''Meta Llama''"
  by code_simp

lemma meta_llama_prefix:
  "takeWhile (\<lambda>c. c \<noteq> CHR ''_'') ''meta-llama_Llama-3-8B'' = ''meta-llama''"
  by simp

lemma meta_llama_rest:
  "tl (dropWhile (\<lambda>c. c \<noteq> CHR ''_'') ''meta-llama_Llama-3-8B'') = ''Llama-3-8B''"
  by simp

theorem underscore_org_counterexample:
  "str_contains ''_'' ''meta-llama_Llama-3-8B'' \<and>
   takeWhile (\<lambda>c. c \<noteq> CHR ''_'') ''meta-llama_Llama-3-8B'' = ''meta-llama'' \<and>
   resolve_org ''meta-llama_Llama-3-8B'' = ''Meta Llama'' \<and>
   resolve_org ''meta-llama_Llama-3-8B'' \<noteq> takeWhile (\<lambda>c. c \<noteq> CHR ''_'') ''meta-llama_Llama-3-8B''"
  unfolding meta_llama_org meta_llama_prefix using meta_llama_underscore by simp

theorem underscore_split_normalised_witness:
  "str_contains ''_'' ''meta-llama_Llama-3-8B'' \<and>
   resolve_org ''meta-llama_Llama-3-8B''
     = special_fixes (clean_org (fallback_org ''meta-llama_Llama-3-8B'' ''meta-llama'')) \<and>
   resolve_name ''meta-llama_Llama-3-8B'' = ''Llama-3-8B''"
  using underscore_split_normalised [OF meta_llama_underscore] meta_llama_underscore
  unfolding meta_llama_prefix meta_llama_rest by simp

lemma special_fixes_meta: "special_fixes ''Meta Llama'' = ''Meta Llama''"
  by code_simp

lemma meta_not_ai: "\<not> str_contains ''01 Ai'' ''Meta Llama''"
  by code_simp

lemma meta_not_qwen: "\<not> str_contains ''Qwen'' ''Meta Llama''"
  by code_simp

text \<open>
  Claim C7, as amended. When the organization after hyphen replacement and title-casing
  contains \<open>Llama\<close> with this capitalisation, the final organization is \<open>Meta Llama\<close>:
  the two later fixes leave it alone.
\<close>

theorem capitalised_llama_forces_meta_llama:
  assumes "str_contains ''Llama'' (clean_org (fallback_org raw (fst (guess_org_name raw))))"
  shows "resolve_org raw = ''Meta Llama'' \<and> organization (make_record raw sig) = ''Meta Llama''"
  using assms meta_not_ai meta_not_qwen
  by (simp add: resolve_org_def special_fixes_def make_record_def Let_def)

lemma codellama_titled:
  "clean_org (fallback_org ''codellama_CodeLlama-7b-hf'' (fst (guess_org_name ''codellama_CodeLlama-7b-hf'')))
     = ''Codellama''"
  by code_simp

lemma codellama_org: "resolve_org ''codellama_CodeLlama-7b-hf'' = ''Codellama''"
  by code_simp

lemma codellama_lower: "str_contains ''llama'' (str_lower ''Codellama'')"
  by code_simp

theorem llama_case_insensitive_counterexample:
  "str_contains ''llama''
     (str_lower (clean_org (fallback_org ''codellama_CodeLlama-7b-hf''
        (fst (guess_org_name ''codellama_CodeLlama-7b-hf''))))) \<and>
   resolve_org ''codellama_CodeLlama-7b-hf'' = ''Codellama'' \<and>
   resolve_org ''codellama_CodeLlama-7b-hf'' \<noteq> ''Meta Llama''"
  unfolding codellama_titled codellama_org using codellama_lower by simp

lemma tuned_llama_titled:
  "str_contains ''Llama''
     (clean_org (fallback_org ''llama-2-7b-tuned'' (fst (guess_org_name ''llama-2-7b-tuned''))))"
  by code_simp

theorem capitalised_llama_forces_meta_llama_witness:
  "str_contains ''Llama''
     (clean_org (fallback_org ''llama-2-7b-tuned'' (fst (guess_org_name ''llama-2-7b-tuned'')))) \<and>
   resolve_org ''llama-2-7b-tuned'' = ''Meta Llama'' \<and>
   organization (make_record ''llama-2-7b-tuned'' [1::nat]) = ''Meta Llama''"
  using capitalised_llama_forces_meta_llama [OF tuned_llama_titled, of "[1::nat]"] tuned_llama_titled
  by simp

section \<open>When the organization is empty\<close>

lemma str_title_Nil: "str_title s = [] \<longleftrightarrow> s = []"
  by (cases s) (simp_all add: str_title_def)

lemma replace_dash_Nil: "str_replace ''-'' '' '' s = [] \<longleftrightarrow> s = []"
  by (cases s) simp_all

lemma clean_org_Nil: "clean_org org = [] \<longleftrightarrow> org = []"
  by (simp add: clean_org_def str_title_Nil replace_dash_Nil)

lemma special_fixes_Nil: "special_fixes org = [] \<longleftrightarrow> org = []"
  by (cases org) (simp_all add: special_fixes_def Let_def)

lemma resolve_org_Nil:
  "resolve_org raw = [] \<longleftrightarrow> fallback_org raw (fst (guess_org_name raw)) = []"
  by (simp add: resolve_org_def special_fixes_Nil clean_org_Nil)

lemma takeWhile_Nil_prefix: "takeWhile (\<lambda>x. x \<noteq> c) s = [] \<longleftrightarrow> s = [] \<or> prefix [c] s"
  by (cases s) auto

lemma guess_org_underscore:
  "str_contains ''_'' raw \<Longrightarrow> fst (guess_org_name raw) = takeWhile (\<lambda>x. x \<noteq> CHR ''_'') raw"
  by (simp add: guess_org_name_def Let_def hd_str_split)

lemma guess_org_keyword:
  "\<not> str_contains ''_'' raw \<Longrightarrow> keyword_match raw \<Longrightarrow>
   fst (guess_org_name raw) \<in> {''Meta Llama'', ''Qwen'', ''Mistral'', ''01-ai'', ''Google'', ''Microsoft''}"
  by (auto simp: guess_org_name_def keyword_match_def Let_def)

lemma guess_org_others:
  "\<not> str_contains ''_'' raw \<Longrightarrow> \<not> keyword_match raw \<Longrightarrow> fst (guess_org_name raw) = ''Others''"
  by (simp add: guess_org_name_def keyword_match_def Let_def)

lemma fallback_plain:
  "org \<noteq> ''Unknown'' \<Longrightarrow> org \<noteq> ''Others'' \<Longrightarrow> fallback_org raw org = org"
  by (simp add: fallback_org_def)

lemma fallback_placeholder:
  "org = ''Unknown'' \<or> org = ''Others'' \<Longrightarrow>
   fallback_org raw org =
     (if CHR ''-'' \<in> set raw then takeWhile (\<lambda>x. x \<noteq> CHR ''-'') raw else org)"
  by (auto simp: fallback_org_def str_contains_single hd_str_split)

lemma takeWhile_head:
  "takeWhile P s = a # u \<Longrightarrow> \<exists>r. s = a # r"
  by (cases s) (auto split: if_splits)

text \<open>
  Claim C4, as amended. The organization of a record is empty exactly when the raw name
  starts with an underscore, or starts with a hyphen and has neither an underscore nor
  one of the organization keywords; for every other raw name it is non-empty.
\<close>

theorem organization_empty_iff:
  "organization (make_record raw sig) = [] \<longleftrightarrow>
     prefix ''_'' raw \<or> (prefix ''-'' raw \<and> \<not> str_contains ''_'' raw \<and> \<not> keyword_match raw)"
proof -
  have org: "organization (make_record raw sig) = resolve_org raw"
    by (simp add: make_record_def Let_def)
  show ?thesis
  proof (cases "str_contains ''_'' raw")
    case True
    let ?p = "takeWhile (\<lambda>x. x \<noteq> CHR ''_'') raw"
    from True have ne: "raw \<noteq> []" by auto
    have g: "fst (guess_org_name raw) = ?p" using True by (rule guess_org_underscore)
    show ?thesis
    proof (cases "?p = ''Unknown'' \<or> ?p = ''Others''")
      case False
      then have "fallback_org raw ?p = ?p" by (simp add: fallback_plain)
      then have "resolve_org raw = [] \<longleftrightarrow> prefix ''_'' raw"
        using ne by (simp add: resolve_org_Nil g takeWhile_Nil_prefix)
      with True org show ?thesis by simp
    next
      case ph: True
      then obtain r where r: "raw = CHR ''U'' # r \<or> raw = CHR ''O'' # r"
        using takeWhile_head [of "\<lambda>x. x \<noteq> CHR ''_''" raw] by auto
      then have np: "\<not> prefix ''_'' raw" "\<not> prefix ''-'' raw" by auto
      have "fallback_org raw ?p \<noteq> []"
        using ph r by (auto simp: fallback_placeholder)
      then have "resolve_org raw \<noteq> []" by (simp add: resolve_org_Nil g)
      with np org show ?thesis by simp
    qed
  next
    case False
    then have nu: "\<not> prefix ''_'' raw" by (cases raw) auto
    show ?thesis
    proof (cases "keyword_match raw")
      case True
      from guess_org_keyword [OF False True]
      have "fallback_org raw (fst (guess_org_name raw)) \<noteq> []"
        by (auto simp: fallback_org_def)
      then have "resolve_org raw \<noteq> []" by (simp add: resolve_org_Nil)
      with nu True org show ?thesis by simp
    next
      case nk: False
      have g: "fst (guess_org_name raw) = ''Others''" using False nk by (rule guess_org_others)
      have "fallback_org raw ''Others'' = [] \<longleftrightarrow> prefix ''-'' raw"
        by (cases raw) (auto simp: fallback_placeholder)
      then have "resolve_org raw = [] \<longleftrightarrow> prefix ''-'' raw" by (simp add: resolve_org_Nil g)
      with nu nk False org show ?thesis by simp
    qed
  qed
qed

lemma underscore_foo_prefix: "prefix ''_'' ''_foo''"
  by simp

lemma others_foo_shape:
  "\<not> prefix ''_'' ''foo'' \<and> \<not> prefix ''-'' ''foo''"
  by simp

theorem organization_empty_counterexample:
  "organization (make_record ''_foo'' [1::nat]) = [] \<and>
   organization (make_record ''-foo'' [1::nat]) = []"
  by code_simp

theorem organization_empty_iff_witness:
  "organization (make_record ''_foo'' [1::nat]) = [] \<and>
   organization (make_record ''foo'' [1::nat]) \<noteq> []"
  using organization_empty_iff [of "''_foo''" "[1::nat]"] organization_empty_iff [of "''foo''" "[1::nat]"]
  by simp

section \<open>The driver: signatures of different lengths\<close>









end
